theory Spec2Isabelle
  imports Main "HOL-Library.Sublist" "HOL-Library.Word"
begin

section \<open>Go values used by \<open>http/request.go\<close>\<close>

text \<open>
  A Go \<open>string\<close> is a sequence of bytes, modelled as \<open>string\<close> (a \<open>char list\<close>, one
  \<open>char\<close> per byte). A \<open>[]byte\<close> body is a list of 8-bit words. Go's \<open>error\<close> values are
  a datatype; \<open>nil\<close> errors are \<open>None\<close>.
\<close>

type_synonym byte = "8 word"

datatype error =
    errors_New string           \<comment> \<open>\<open>errors.New(msg)\<close>\<close>
  | ErrNoCookie                 \<comment> \<open>\<open>net/http.ErrNoCookie\<close>\<close>
  | AddrError string string     \<comment> \<open>\<open>&net.AddrError{Err: why, Addr: addr}\<close>\<close>
  | ExternalError string        \<comment> \<open>an error raised by a reader, parser or decoder\<close>

subsection \<open>Package \<open>strings\<close>\<close>

text \<open>
  \<open>strings.TrimSpace\<close> removes leading and trailing white space as defined by Unicode
  (\<open>unicode.IsSpace\<close>), decoding UTF-8 at both ends. The white-space code points are
  U+0009..U+000D, U+0020, U+0085, U+00A0, U+1680, U+2000..U+200A, U+2028, U+2029, U+202F,
  U+205F and U+3000; \<open>whiteSpaceUTF8\<close> lists their UTF-8 encodings. A rune at the start
  (at the end) of a string is white space exactly when one of these encodings is a prefix
  (a suffix) of the string.
\<close>

definition whiteSpaceUTF8 :: "string list" where
  "whiteSpaceUTF8 =
     [[CHR 0x09], [CHR 0x0A], [CHR 0x0B], [CHR 0x0C], [CHR 0x0D], [CHR 0x20],
      [CHR 0xC2, CHR 0x85], [CHR 0xC2, CHR 0xA0],
      [CHR 0xE1, CHR 0x9A, CHR 0x80],
      [CHR 0xE2, CHR 0x80, CHR 0x80], [CHR 0xE2, CHR 0x80, CHR 0x81],
      [CHR 0xE2, CHR 0x80, CHR 0x82], [CHR 0xE2, CHR 0x80, CHR 0x83],
      [CHR 0xE2, CHR 0x80, CHR 0x84], [CHR 0xE2, CHR 0x80, CHR 0x85],
      [CHR 0xE2, CHR 0x80, CHR 0x86], [CHR 0xE2, CHR 0x80, CHR 0x87],
      [CHR 0xE2, CHR 0x80, CHR 0x88], [CHR 0xE2, CHR 0x80, CHR 0x89],
      [CHR 0xE2, CHR 0x80, CHR 0x8A],
      [CHR 0xE2, CHR 0x80, CHR 0xA8], [CHR 0xE2, CHR 0x80, CHR 0xA9],
      [CHR 0xE2, CHR 0x80, CHR 0xAF],
      [CHR 0xE2, CHR 0x81, CHR 0x9F],
      [CHR 0xE3, CHR 0x80, CHR 0x80]]"

text \<open>The loop of \<open>strings.TrimLeftFunc\<close>: drop white-space runes while one leads.\<close>

function trimPrefixes :: "string list \<Rightarrow> string \<Rightarrow> string" where
  "trimPrefixes encs s =
     (case find (\<lambda>e. e \<noteq> [] \<and> prefix e s) encs of
        None \<Rightarrow> s
      | Some e \<Rightarrow> trimPrefixes encs (drop (length e) s))"
  by pat_completeness auto
termination
proof (relation "measure (\<lambda>(encs, s). length s)")
  show "wf (measure (\<lambda>(encs, s). length s))" by simp
next
  fix encs :: "string list" and s e :: string
  assume "find (\<lambda>e. e \<noteq> [] \<and> prefix e s) encs = Some e"
  then have "e \<noteq> []" "prefix e s" by (auto simp: find_Some_iff)
  then show "((encs, drop (length e) s), (encs, s)) \<in> measure (\<lambda>(encs, s). length s)"
    by (auto simp: prefix_def)
qed

declare trimPrefixes.simps [simp del]

definition TrimLeftSpace :: "string \<Rightarrow> string" where
  "TrimLeftSpace s = trimPrefixes whiteSpaceUTF8 s"

text \<open>\<open>strings.TrimRightFunc\<close> does the same from the end of the string.\<close>

definition TrimRightSpace :: "string \<Rightarrow> string" where
  "TrimRightSpace s = rev (trimPrefixes (map rev whiteSpaceUTF8) (rev s))"

definition TrimSpace :: "string \<Rightarrow> string" where
  "TrimSpace s = TrimRightSpace (TrimLeftSpace s)"

text \<open>\<open>strings.IndexByte\<close>: the index of the first occurrence of \<open>c\<close>, or \<open>-1\<close>.\<close>

definition IndexByte :: "string \<Rightarrow> char \<Rightarrow> int" where
  "IndexByte s c =
     (if c \<in> set s then int (length (takeWhile (\<lambda>x. x \<noteq> c) s)) else - 1)"

text \<open>\<open>strings.Contains\<close>: \<open>substr\<close> occurs somewhere within \<open>s\<close>.\<close>

fun Contains :: "string \<Rightarrow> string \<Rightarrow> bool" where
  "Contains [] substr = (substr = [])"
| "Contains (c # s) substr = (prefix substr (c # s) \<or> Contains s substr)"

subsection \<open>Package \<open>net/textproto\<close>: canonical header keys\<close>

text \<open>\<open>validHeaderFieldByte\<close>: the token characters of RFC 7230.\<close>

definition validHeaderFieldByte :: "char \<Rightarrow> bool" where
  "validHeaderFieldByte c \<longleftrightarrow>
     c \<in> set (''!#$%&*+-.^_|~'' @ [CHR 0x27, CHR 0x60] @ ''0123456789''
              @ ''ABCDEFGHIJKLMNOPQRSTUVWXYZ'' @ ''abcdefghijklmnopqrstuvwxyz'')"

definition isLowerAZ :: "char \<Rightarrow> bool" where
  "isLowerAZ c \<longleftrightarrow> (97::nat) \<le> of_char c \<and> of_char c \<le> (122::nat)"

definition isUpperAZ :: "char \<Rightarrow> bool" where
  "isUpperAZ c \<longleftrightarrow> (65::nat) \<le> of_char c \<and> of_char c \<le> (90::nat)"

text \<open>
  The loop of \<open>canonicalMIMEHeaderKey\<close>: upper case for the first letter and for a letter
  after a dash, lower case for every other letter (\<open>toLower = 'a' - 'A' = 32\<close>).
\<close>

fun canonicalMIMEHeaderKey :: "bool \<Rightarrow> string \<Rightarrow> string" where
  "canonicalMIMEHeaderKey upper [] = []"
| "canonicalMIMEHeaderKey upper (c # a) =
     (let c' = (if upper \<and> isLowerAZ c then char_of (of_char c - (32::nat))
                else if \<not> upper \<and> isUpperAZ c then char_of (of_char c + (32::nat))
                else c)
      in c' # canonicalMIMEHeaderKey (c' = CHR ''-'') a)"

text \<open>
  \<open>textproto.CanonicalMIMEHeaderKey\<close>: a key with a byte that is not a token character
  (a space included) is returned unchanged; any other key is canonicalised.
\<close>

definition CanonicalMIMEHeaderKey :: "string \<Rightarrow> string" where
  "CanonicalMIMEHeaderKey s =
     (if list_all validHeaderFieldByte s then canonicalMIMEHeaderKey True s else s)"

subsection \<open>Package \<open>net\<close>: \<open>SplitHostPort\<close>\<close>

text \<open>\<open>net.last\<close>: the index of the last occurrence of \<open>c\<close>, or \<open>-1\<close>.\<close>

definition last_index :: "string \<Rightarrow> char \<Rightarrow> int" where
  "last_index s c =
     (if c \<in> set s
      then int (length s) - 1 - int (length (takeWhile (\<lambda>x. x \<noteq> c) (rev s)))
      else - 1)"

definition missingPort :: string where
  "missingPort = ''missing port in address''"

definition tooManyColons :: string where
  "tooManyColons = ''too many colons in address''"

definition addrErr :: "string \<Rightarrow> string \<Rightarrow> error + string \<times> string" where
  "addrErr addr why = Inl (AddrError why addr)"

text \<open>
  The tail of \<open>SplitHostPort\<close>, after \<open>host\<close>, \<open>j\<close> and \<open>k\<close> are set: no bracket may follow
  position \<open>j\<close> (resp. \<open>k\<close>), and the port is what follows the last colon, at \<open>i\<close>.
\<close>

definition splitRest :: "string \<Rightarrow> int \<Rightarrow> string \<Rightarrow> nat \<Rightarrow> nat \<Rightarrow> error + string \<times> string" where
  "splitRest hostport i host j k =
     (if IndexByte (drop j hostport) (CHR ''['') \<ge> 0
        then addrErr hostport ''unexpected '[' in address''
      else if IndexByte (drop k hostport) (CHR '']'') \<ge> 0
        then addrErr hostport ''unexpected ']' in address''
      else Inr (host, drop (nat (i + 1)) hostport))"

definition SplitHostPort :: "string \<Rightarrow> error + string \<times> string" where
  "SplitHostPort hostport =
     (let i = last_index hostport (CHR '':'') in
      if i < 0 then addrErr hostport missingPort
      else if (case hostport of [] \<Rightarrow> False | c # _ \<Rightarrow> c = CHR ''['') then
        (let end = IndexByte hostport (CHR '']'') in
         if end < 0 then addrErr hostport ''missing ']' in address''
         else if end + 1 = int (length hostport) then addrErr hostport missingPort
         else if end + 1 = i then
           splitRest hostport i (drop 1 (take (nat end) hostport)) 1 (nat (end + 1))
         else if hostport ! nat (end + 1) = CHR '':'' then addrErr hostport tooManyColons
         else addrErr hostport missingPort)
      else
        (let host = take (nat i) hostport in
         if IndexByte host (CHR '':'') \<ge> 0 then addrErr hostport tooManyColons
         else splitRest hostport i host 0 0))"

subsection \<open>Package \<open>io\<close>: the body stream\<close>

text \<open>
  An \<open>io.ReadCloser\<close> is the bytes it still delivers, followed by end of file
  (\<open>fault = None\<close>) or by a read error. \<open>ioutil.ReadAll\<close> drains it and returns the bytes read
  with the error, if any; it never reports end of file as an error.
  \<open>bytes.NewBuffer(b)\<close> is a reader that delivers \<open>b\<close> and then end of file, and
  \<open>ioutil.NopCloser\<close> leaves reading as it is.
\<close>

datatype stream = Stream (pending: "byte list") (fault: "error option")

definition ReadAll :: "stream \<Rightarrow> (byte list \<times> error option) \<times> stream" where
  "ReadAll b = ((pending b, fault b), Stream [] (fault b))"

definition NewBuffer :: "byte list \<Rightarrow> stream" where
  "NewBuffer buf = Stream buf None"

definition NopCloser :: "stream \<Rightarrow> stream" where
  "NopCloser b = b"

subsection \<open>Package \<open>net/http\<close>: the base request\<close>

text \<open>
  \<open>http.Header\<close> and \<open>url.Values\<close> are Go maps from a key to a list of values. A \<open>nil\<close>
  \<open>url.Values\<close> is \<open>None\<close>. The fields of \<open>http.Request\<close> carry the prefix \<open>net_\<close>.
\<close>

type_synonym http_Header = "string \<rightharpoonup> string list"
type_synonym url_Values = "(string \<rightharpoonup> string list) option"

record http_Cookie =
  Name :: string
  Value :: string

record http_Request =
  net_Method :: string
  net_RequestURI :: string
  net_Header :: http_Header
  net_RemoteAddr :: string
  net_Body :: "stream option"
  net_Form :: url_Values

text \<open>\<open>Header.Get\<close>: the first value stored under the canonical form of \<open>key\<close>, or \<open>""\<close>.\<close>

definition Header_Get :: "http_Header \<Rightarrow> string \<Rightarrow> string" where
  "Header_Get h key =
     (case h (CanonicalMIMEHeaderKey key) of
        None \<Rightarrow> []
      | Some v \<Rightarrow> (case v of [] \<Rightarrow> [] | v0 # _ \<Rightarrow> v0))"

text \<open>
  \<open>(*http.Request).Cookie\<close>: the first cookie of that name among those parsed from the
  headers, or \<open>nil\<close> with \<open>ErrNoCookie\<close>. The cookie parser \<open>readCookies\<close> is a parameter.
\<close>

definition http_Request_Cookie ::
  "(http_Header \<Rightarrow> string \<Rightarrow> http_Cookie list) \<Rightarrow> http_Request \<Rightarrow> string
     \<Rightarrow> http_Cookie option \<times> error option" where
  "http_Request_Cookie readCookies req name =
     (if name = [] then (None, Some ErrNoCookie)
      else (case readCookies (net_Header req) name of
              c # _ \<Rightarrow> (Some c, None)
            | [] \<Rightarrow> (None, Some ErrNoCookie)))"

text \<open>
  \<open>(*http.Cookie).String\<close>: \<open>""\<close> on a \<open>nil\<close> receiver; the serialisation of any other
  cookie is the parameter \<open>serialize\<close>.
\<close>

definition Cookie_String :: "(http_Cookie \<Rightarrow> string) \<Rightarrow> http_Cookie option \<Rightarrow> string" where
  "Cookie_String serialize c = (case c of None \<Rightarrow> [] | Some ck \<Rightarrow> serialize ck)"

section \<open>The request wrapper of \<open>http/request.go\<close>\<close>

text \<open>
  The wrapper holds the base request and the route parameters. Its \<open>Route\<close> and
  \<open>Bindings\<close> fields are read by none of the methods below and are left out.
\<close>

record Request =
  request :: http_Request
  Params :: "(string \<times> string) list"

text \<open>\<open>NewRequest\<close>: the wrapper of a base request, with no route parameters yet.\<close>

definition NewRequest :: "http_Request \<Rightarrow> Request" where
  "NewRequest netRequest = \<lparr>request = netRequest, Params = []\<rparr>"

definition Header :: "Request \<Rightarrow> string \<Rightarrow> string" where
  "Header r name =
     (let value = Header_Get (net_Header (request r)) name
      in if value \<noteq> [] then TrimSpace value else value)"

definition IsAjax :: "Request \<Rightarrow> bool" where
  "IsAjax r \<longleftrightarrow> Header r ''HTTP_X_REQUESTED_WITH'' = ''XMLHttpRequest''"

definition Method :: "Request \<Rightarrow> string" where
  "Method r = net_Method (request r)"

definition URL :: "Request \<Rightarrow> string" where
  "URL r = net_RequestURI (request r)"

definition Referer :: "Request \<Rightarrow> string" where
  "Referer r = Header r ''Referer''"

definition IP :: "Request \<Rightarrow> string" where
  "IP r =
     (let realIP = Header r ''X-Real-IP'' in
      if realIP \<noteq> [] then realIP
      else
        let realIP = Header r ''X-Forwarded-For'';
            idx = IndexByte realIP (CHR '','');
            realIP = (if idx \<ge> 0 then take (nat idx) realIP else realIP);
            realIP = TrimSpace realIP
        in if realIP \<noteq> [] then realIP
           else
             let addr = TrimSpace (net_RemoteAddr (request r)) in
             if length addr = 0 then []
             else (case SplitHostPort addr of
                     Inr (ip, _) \<Rightarrow> ip
                   | Inl err \<Rightarrow> addr))"

definition HeaderContains :: "Request \<Rightarrow> string \<Rightarrow> string \<Rightarrow> bool" where
  "HeaderContains r header substring = Contains (Header r header) substring"

definition WantsJSON :: "Request \<Rightarrow> bool" where
  "WantsJSON r = HeaderContains r ''accept'' ''application/json''"

definition WantsHTML :: "Request \<Rightarrow> bool" where
  "WantsHTML r = HeaderContains r ''accept'' ''text/html''"

definition WantsPlainText :: "Request \<Rightarrow> bool" where
  "WantsPlainText r = HeaderContains r ''accept'' ''text/plain''"

definition Cookie ::
  "(http_Header \<Rightarrow> string \<Rightarrow> http_Cookie list) \<Rightarrow> (http_Cookie \<Rightarrow> string)
     \<Rightarrow> Request \<Rightarrow> string \<Rightarrow> string" where
  "Cookie readCookies serialize r name =
     (case http_Request_Cookie readCookies (request r) name of
        (cookie, Some err) \<Rightarrow> Cookie_String serialize cookie
      | (cookie, None) \<Rightarrow> [])"

definition HasCookie ::
  "(http_Header \<Rightarrow> string \<Rightarrow> http_Cookie list) \<Rightarrow> Request \<Rightarrow> string \<Rightarrow> bool" where
  "HasCookie readCookies r name \<longleftrightarrow>
     snd (http_Request_Cookie readCookies (request r) name) = None"

text \<open>
  \<open>parseForm\<close> and \<open>FormValues\<close>. \<open>(*http.Request).ParseForm\<close> is the parameter \<open>ParseForm\<close>:
  it returns its error and the base request as it leaves it.
\<close>

definition parseForm ::
  "(http_Request \<Rightarrow> error option \<times> http_Request) \<Rightarrow> Request \<Rightarrow> error option \<times> Request" where
  "parseForm ParseForm r =
     (if net_Form (request r) = None then
        (case ParseForm (request r) of
           (Some err, req') \<Rightarrow> (Some err, r\<lparr>request := req'\<rparr>)
         | (None, req') \<Rightarrow> (None, r\<lparr>request := req'\<rparr>))
      else (None, r))"

definition FormValues ::
  "(http_Request \<Rightarrow> error option \<times> http_Request) \<Rightarrow> Request \<Rightarrow> url_Values \<times> Request" where
  "FormValues ParseForm r =
     (case parseForm ParseForm r of
        (Some err, r') \<Rightarrow> (None, r')
      | (None, r') \<Rightarrow> (net_Form (request r'), r'))"

text \<open>
  \<open>readBody\<close> returns the raw body or an error, and the request as the read leaves it:
  after a failed read the body is the drained stream, after a successful one a fresh
  buffer over the bytes read.
\<close>

definition readBody :: "Request \<Rightarrow> (error + byte list) \<times> Request" where
  "readBody r =
     (case net_Body (request r) of
        None \<Rightarrow> (Inl (errors_New ''Body was empty''), r)
      | Some body \<Rightarrow>
          (case ReadAll body of
             ((rawBody, Some err), body') \<Rightarrow>
               (Inl err, r\<lparr>request := (request r)\<lparr>net_Body := Some body'\<rparr>\<rparr>)
           | ((rawBody, None), body') \<Rightarrow>
               (Inr rawBody,
                r\<lparr>request := (request r)\<lparr>net_Body := Some (NopCloser (NewBuffer rawBody))\<rparr>\<rparr>)))"

text \<open>
  \<open>ReadJSON\<close> returns its error, the target as the call leaves it, and the request.
  \<open>json.Unmarshal\<close> is the parameter \<open>Unmarshal\<close>: from the data and the target to its error
  and the target as decoding leaves it.
\<close>

definition ReadJSON ::
  "(byte list \<Rightarrow> 't \<Rightarrow> error option \<times> 't) \<Rightarrow> Request \<Rightarrow> 't \<Rightarrow> error option \<times> 't \<times> Request" where
  "ReadJSON Unmarshal r target =
     (case readBody r of
        (Inl err, r') \<Rightarrow> (Some err, target, r')
      | (Inr rawBody, r') \<Rightarrow>
          (case Unmarshal rawBody target of
             (Some err, target') \<Rightarrow> (Some err, target', r')
           | (None, target') \<Rightarrow> (None, target', r')))"

section \<open>Facts about the library functions\<close>

lemma Contains_iff: "Contains s sub \<longleftrightarrow> (\<exists>p q. s = p @ sub @ q)"
proof (induction s)
  case Nil
  then show ?case by auto
next
  case (Cons c s)
  show ?case
  proof
    assume "Contains (c # s) sub"
    then consider "prefix sub (c # s)" | "Contains s sub" by auto
    then show "\<exists>p q. c # s = p @ sub @ q"
    proof cases
      case 1
      then obtain q where "c # s = sub @ q" by (auto simp: prefix_def)
      then have "c # s = [] @ sub @ q" by simp
      then show ?thesis by blast
    next
      case 2
      then obtain p q where "s = p @ sub @ q" using Cons.IH by blast
      then have "c # s = (c # p) @ sub @ q" by simp
      then show ?thesis by blast
    qed
  next
    assume "\<exists>p q. c # s = p @ sub @ q"
    then obtain p q where pq: "c # s = p @ sub @ q" by blast
    show "Contains (c # s) sub"
    proof (cases p)
      case Nil
      then have "prefix sub (c # s)" using pq by (simp add: prefix_def)
      then show ?thesis by simp
    next
      case (Cons a p')
      then have "s = p' @ sub @ q" using pq by simp
      then have "Contains s sub" using Cons.IH by blast
      then show ?thesis by simp
    qed
  qed
qed

lemma trimPrefixes_stuck:
  "find (\<lambda>e. e \<noteq> [] \<and> prefix e s) encs = None \<Longrightarrow> trimPrefixes encs s = s"
  by (subst trimPrefixes.simps) simp

lemma trimPrefixes_step:
  "find (\<lambda>e. e \<noteq> [] \<and> prefix e s) encs = Some e
     \<Longrightarrow> trimPrefixes encs s = trimPrefixes encs (drop (length e) s)"
  by (subst trimPrefixes.simps) simp

lemma trimPrefixes_result_stuck:
  "find (\<lambda>e. e \<noteq> [] \<and> prefix e (trimPrefixes encs s)) encs = None"
proof (induction encs s rule: trimPrefixes.induct)
  case (1 encs s)
  show ?case
  proof (cases "find (\<lambda>e. e \<noteq> [] \<and> prefix e s) encs")
    case None
    then show ?thesis by (simp add: trimPrefixes_stuck)
  next
    case (Some e)
    then show ?thesis using 1 by (simp add: trimPrefixes_step)
  qed
qed

lemma trimPrefixes_decomp:
  "\<exists>pre. s = pre @ trimPrefixes encs s \<and> set pre \<subseteq> \<Union> (set ` set encs)"
proof (induction encs s rule: trimPrefixes.induct)
  case (1 encs s)
  show ?case
  proof (cases "find (\<lambda>e. e \<noteq> [] \<and> prefix e s) encs")
    case None
    then have "s = [] @ trimPrefixes encs s" by (simp add: trimPrefixes_stuck)
    then show ?thesis by (metis empty_set empty_subsetI)
  next
    case (Some e)
    then have e: "e \<in> set encs" "prefix e s"
      by (auto simp: find_Some_iff)
    then have s: "s = e @ drop (length e) s" by (auto simp: prefix_def)
    from 1 [OF Some] obtain pre where
      pre: "drop (length e) s = pre @ trimPrefixes encs (drop (length e) s)"
           "set pre \<subseteq> \<Union> (set ` set encs)" by blast
    have "s = (e @ pre) @ trimPrefixes encs s"
      using s pre(1) Some by (metis append.assoc trimPrefixes_step)
    moreover have "set (e @ pre) \<subseteq> \<Union> (set ` set encs)"
      using e(1) pre(2) by auto
    ultimately show ?thesis by blast
  qed
qed

lemma stuck_prefix:
  assumes "find (\<lambda>e. e \<noteq> [] \<and> prefix e s) encs = None" and "prefix s' s"
  shows "find (\<lambda>e. e \<noteq> [] \<and> prefix e s') encs = None"
  using assms by (auto simp: find_None_iff dest: prefix_order.trans)

lemma find_cong_set:
  "(\<And>x. x \<in> set xs \<Longrightarrow> P x = Q x) \<Longrightarrow> find P xs = find Q xs"
  by (induction xs) auto

lemma prefix_takeWhile_iff:
  assumes "\<forall>x \<in> set e. P x"
  shows "prefix e (takeWhile P s) \<longleftrightarrow> prefix e s"
proof
  assume "prefix e (takeWhile P s)"
  moreover have "prefix (takeWhile P s) s"
    by (metis prefix_def takeWhile_dropWhile_id)
  ultimately show "prefix e s" by (rule prefix_order.trans)
next
  assume "prefix e s"
  then obtain t where "s = e @ t" by (auto simp: prefix_def)
  then have "takeWhile P s = e @ takeWhile P t"
    using assms by simp
  then show "prefix e (takeWhile P s)" by simp
qed

lemma trimPrefixes_takeWhile:
  assumes "\<forall>e \<in> set encs. \<forall>x \<in> set e. P x"
  shows "trimPrefixes encs (takeWhile P s) = takeWhile P (trimPrefixes encs s)"
  using assms
proof (induction encs s rule: trimPrefixes.induct)
  case (1 encs s)
  have eq: "find (\<lambda>e. e \<noteq> [] \<and> prefix e (takeWhile P s)) encs
            = find (\<lambda>e. e \<noteq> [] \<and> prefix e s) encs"
    using 1(2) by (intro find_cong_set) (simp add: prefix_takeWhile_iff)
  show ?case
  proof (cases "find (\<lambda>e. e \<noteq> [] \<and> prefix e s) encs")
    case None
    then show ?thesis using eq by (simp add: trimPrefixes_stuck)
  next
    case (Some e)
    then have e: "e \<in> set encs" "prefix e s"
      by (auto simp: find_Some_iff)
    then obtain t where t: "s = e @ t" by (auto simp: prefix_def)
    have "\<forall>x \<in> set e. P x" using e(1) 1(2) by blast
    then have tw: "takeWhile P s = e @ takeWhile P t" using t by simp
    have "trimPrefixes encs (takeWhile P s)
            = trimPrefixes encs (drop (length e) (takeWhile P s))"
      using eq Some by (simp add: trimPrefixes_step)
    also have "\<dots> = trimPrefixes encs (takeWhile P (drop (length e) s))"
      using tw t by simp
    also have "\<dots> = takeWhile P (trimPrefixes encs (drop (length e) s))"
      using 1(1) [OF Some 1(2)] .
    also have "\<dots> = takeWhile P (trimPrefixes encs s)"
      using Some by (simp add: trimPrefixes_step)
    finally show ?thesis .
  qed
qed


lemma TrimLeftSpace_decomp:
  "\<exists>pre. s = pre @ TrimLeftSpace s \<and> set pre \<subseteq> \<Union> (set ` set whiteSpaceUTF8)"
  unfolding TrimLeftSpace_def by (rule trimPrefixes_decomp)

lemma TrimRightSpace_decomp:
  "\<exists>post. s = TrimRightSpace s @ post \<and> set post \<subseteq> \<Union> (set ` set whiteSpaceUTF8)"
proof -
  obtain pre where pre: "rev s = pre @ trimPrefixes (map rev whiteSpaceUTF8) (rev s)"
    "set pre \<subseteq> \<Union> (set ` set (map rev whiteSpaceUTF8))"
    using trimPrefixes_decomp by blast
  have "s = rev (rev s)" by simp
  also have "\<dots> = TrimRightSpace s @ rev pre"
    by (subst pre(1)) (simp add: TrimRightSpace_def)
  finally have "s = TrimRightSpace s @ rev pre" .
  moreover have "set (rev pre) \<subseteq> \<Union> (set ` set whiteSpaceUTF8)"
    using pre(2) by auto
  ultimately show ?thesis by blast
qed

lemma TrimLeftSpace_stuck:
  "find (\<lambda>e. e \<noteq> [] \<and> prefix e s) whiteSpaceUTF8 = None \<Longrightarrow> TrimLeftSpace s = s"
  unfolding TrimLeftSpace_def by (rule trimPrefixes_stuck)

lemma TrimRightSpace_idem: "TrimRightSpace (TrimRightSpace s) = TrimRightSpace s"
  by (simp add: TrimRightSpace_def trimPrefixes_stuck trimPrefixes_result_stuck)

lemma TrimLeftSpace_idem: "TrimLeftSpace (TrimLeftSpace s) = TrimLeftSpace s"
  by (simp add: TrimLeftSpace_def trimPrefixes_stuck trimPrefixes_result_stuck)

lemma TrimLeft_TrimSpace: "TrimLeftSpace (TrimSpace s) = TrimSpace s"
proof -
  have "prefix (TrimSpace s) (TrimLeftSpace s)"
    unfolding TrimSpace_def using TrimRightSpace_decomp [of "TrimLeftSpace s"]
    by (metis prefixI)
  moreover have "find (\<lambda>e. e \<noteq> [] \<and> prefix e (TrimLeftSpace s)) whiteSpaceUTF8 = None"
    unfolding TrimLeftSpace_def by (rule trimPrefixes_result_stuck)
  ultimately have "find (\<lambda>e. e \<noteq> [] \<and> prefix e (TrimSpace s)) whiteSpaceUTF8 = None"
    by (rule stuck_prefix [rotated])
  then show ?thesis by (rule TrimLeftSpace_stuck)
qed

lemma TrimSpace_idem: "TrimSpace (TrimSpace s) = TrimSpace s"
proof -
  have "TrimSpace (TrimSpace s) = TrimRightSpace (TrimSpace s)"
    by (subst TrimSpace_def) (simp add: TrimLeft_TrimSpace)
  also have "\<dots> = TrimSpace s"
    by (simp add: TrimSpace_def TrimRightSpace_idem)
  finally show ?thesis .
qed

lemma TrimSpace_decomp:
  "\<exists>pre post. s = pre @ TrimSpace s @ post
     \<and> set pre \<subseteq> \<Union> (set ` set whiteSpaceUTF8)
     \<and> set post \<subseteq> \<Union> (set ` set whiteSpaceUTF8)"
proof -
  obtain pre where pre: "s = pre @ TrimLeftSpace s"
    "set pre \<subseteq> \<Union> (set ` set whiteSpaceUTF8)"
    using TrimLeftSpace_decomp by blast
  obtain post where post: "TrimLeftSpace s = TrimSpace s @ post"
    "set post \<subseteq> \<Union> (set ` set whiteSpaceUTF8)"
    unfolding TrimSpace_def using TrimRightSpace_decomp by blast
  have "s = pre @ TrimSpace s @ post" using pre(1) post(1) by simp
  then show ?thesis using pre(2) post(2) by blast
qed

lemma TrimSpace_Nil: "TrimSpace [] = []"
  using TrimSpace_decomp [of "[]"] by auto

lemma takeWhile_neq_notin: "c \<notin> set s \<Longrightarrow> takeWhile (\<lambda>x. x \<noteq> c) s = s"
  by (induction s) auto

lemma TrimSpace_takeWhile:
  assumes c: "c \<notin> \<Union> (set ` set whiteSpaceUTF8)"
  shows "TrimSpace (takeWhile (\<lambda>x. x \<noteq> c) (TrimSpace v)) = TrimSpace (takeWhile (\<lambda>x. x \<noteq> c) v)"
proof -
  let ?P = "\<lambda>x. x \<noteq> c"
  let ?w = "TrimLeftSpace v"
  obtain pre where pre: "v = pre @ ?w" "set pre \<subseteq> \<Union> (set ` set whiteSpaceUTF8)"
    using TrimLeftSpace_decomp by blast
  obtain post where post: "?w = TrimSpace v @ post"
    "set post \<subseteq> \<Union> (set ` set whiteSpaceUTF8)"
    unfolding TrimSpace_def using TrimRightSpace_decomp by blast
  have all: "\<forall>e \<in> set whiteSpaceUTF8. \<forall>x \<in> set e. ?P x" using c by auto
  have all': "\<forall>e \<in> set (map rev whiteSpaceUTF8). \<forall>x \<in> set e. ?P x" using c by auto
  show ?thesis
  proof (cases "c \<in> set ?w")
    case True
    then have "c \<in> set (TrimSpace v)" using post c by (metis Un_iff set_append subsetD)
    then have "takeWhile ?P ?w = takeWhile ?P (TrimSpace v)"
      by (subst post(1)) simp
    then have "takeWhile ?P (TrimSpace v) = TrimLeftSpace (takeWhile ?P v)"
      unfolding TrimLeftSpace_def using trimPrefixes_takeWhile [OF all] by simp
    then show ?thesis by (simp add: TrimSpace_def TrimLeftSpace_idem)
  next
    case False
    then have "c \<notin> set (TrimSpace v)" using post(1) by (metis Un_iff set_append)
    then have 1: "takeWhile ?P (TrimSpace v) = TrimSpace v"
      by (rule takeWhile_neq_notin)
    have "c \<notin> set v" using False pre c by (metis Un_iff set_append subsetD)
    then have 2: "takeWhile ?P v = v" by (rule takeWhile_neq_notin)
    show ?thesis by (simp add: 1 2 TrimSpace_idem)
  qed
qed

lemma comma_not_space: "CHR '','' \<notin> \<Union> (set ` set whiteSpaceUTF8)"
  by (simp add: whiteSpaceUTF8_def)

lemma take_IndexByte:
  "(if IndexByte s c \<ge> 0 then take (nat (IndexByte s c)) s else s) = takeWhile (\<lambda>x. x \<noteq> c) s"
proof (cases "c \<in> set s")
  case True
  then show ?thesis by (simp add: IndexByte_def takeWhile_eq_take [symmetric])
next
  case False
  then show ?thesis by (simp add: IndexByte_def takeWhile_neq_notin)
qed


section \<open>Client IP resolution\<close>

lemma Header_eq: "Header r name = TrimSpace (Header_Get (net_Header (request r)) name)"
  by (simp add: Header_def Let_def TrimSpace_Nil)

lemma IP_raw:
  "IP r =
     (let h = net_Header (request r);
          a = TrimSpace (Header_Get h ''X-Real-IP'');
          b = TrimSpace (takeWhile (\<lambda>x. x \<noteq> CHR '','') (Header_Get h ''X-Forwarded-For''));
          addr = TrimSpace (net_RemoteAddr (request r))
      in if a \<noteq> [] then a
         else if b \<noteq> [] then b
         else if addr = [] then []
         else (case SplitHostPort addr of Inr (ip, port) \<Rightarrow> ip | Inl err \<Rightarrow> addr))"
  unfolding IP_def Let_def take_IndexByte Header_eq
    TrimSpace_takeWhile [OF comma_not_space]
  by simp

lemma last_index_append:
  assumes "c \<notin> set port"
  shows "last_index (host @ c # port) c = int (length host)"
proof -
  have "takeWhile (\<lambda>x. x \<noteq> c) (rev port @ c # rev host) = rev port"
    using assms by (auto simp: takeWhile_tail)
  then show ?thesis by (simp add: last_index_def)
qed

lemma IndexByte_notin: "c \<notin> set s \<Longrightarrow> IndexByte s c = - 1"
  by (simp add: IndexByte_def)

lemma SplitHostPort_host_port:
  assumes host: "CHR '':'' \<notin> set host" "CHR ''['' \<notin> set host" "CHR '']'' \<notin> set host"
    and port: "CHR '':'' \<notin> set port" "CHR ''['' \<notin> set port" "CHR '']'' \<notin> set port"
  shows "SplitHostPort (host @ CHR '':'' # port) = Inr (host, port)"
proof -
  let ?s = "host @ CHR '':'' # port"
  have i: "last_index ?s (CHR '':'') = int (length host)"
    using port(1) by (rule last_index_append)
  have nb: "\<not> (case ?s of [] \<Rightarrow> False | c # _ \<Rightarrow> c = CHR ''['')"
    using host(2) by (cases host) auto
  have "nat (int (length host) + 1) = Suc (length host)" by simp
  then have r: "splitRest ?s (int (length host)) host 0 0 = Inr (host, port)"
    using host port by (simp add: splitRest_def IndexByte_notin)
  show ?thesis
    unfolding SplitHostPort_def Let_def i using nb r host(1)
    by (simp add: IndexByte_notin)
qed


lemma SplitHostPort_Nil: "SplitHostPort [] = Inl (AddrError missingPort [])"
  by (simp add: SplitHostPort_def last_index_def addrErr_def)

text \<open>
  Claim C1. Whenever the \<open>X-Real-IP\<close> header of a request has a non-empty trimmed
  value, \<open>IP\<close> returns exactly that trimmed value, whatever the \<open>X-Forwarded-For\<close> header
  and the remote address are.
\<close>

theorem IP_X_Real_IP:
  assumes "TrimSpace (Header_Get (net_Header (request r)) ''X-Real-IP'') \<noteq> []"
  shows "IP r = TrimSpace (Header_Get (net_Header (request r)) ''X-Real-IP'')"
  using assms by (simp add: IP_raw Let_def)

theorem IP_X_Real_IP_witness:
  "TrimSpace (Header_Get (net_Header (request (NewRequest
       \<lparr>net_Method = ''GET'', net_RequestURI = ''/'',
        net_Header = [''X-Real-Ip'' \<mapsto> ['' 10.0.0.1 ''],
                      ''X-Forwarded-For'' \<mapsto> [''1.2.3.4, 5.6.6.6'']],
        net_RemoteAddr = ''9.9.9.9:4321'', net_Body = None, net_Form = None\<rparr>)))
     ''X-Real-IP'') \<noteq> []
   \<and> IP (NewRequest
       \<lparr>net_Method = ''GET'', net_RequestURI = ''/'',
        net_Header = [''X-Real-Ip'' \<mapsto> ['' 10.0.0.1 ''],
                      ''X-Forwarded-For'' \<mapsto> [''1.2.3.4, 5.6.6.6'']],
        net_RemoteAddr = ''9.9.9.9:4321'', net_Body = None, net_Form = None\<rparr>)
     = ''10.0.0.1''"
proof -
  let ?r = "NewRequest
       \<lparr>net_Method = ''GET'', net_RequestURI = ''/'',
        net_Header = [''X-Real-Ip'' \<mapsto> ['' 10.0.0.1 ''],
                      ''X-Forwarded-For'' \<mapsto> [''1.2.3.4, 5.6.6.6'']],
        net_RemoteAddr = ''9.9.9.9:4321'', net_Body = None, net_Form = None\<rparr>"
  have v: "TrimSpace (Header_Get (net_Header (request ?r)) ''X-Real-IP'') = ''10.0.0.1''"
    by code_simp
  then have "TrimSpace (Header_Get (net_Header (request ?r)) ''X-Real-IP'') \<noteq> []"
    by simp
  then show ?thesis using IP_X_Real_IP [of ?r] v by simp
qed

lemma first_of_forwarded_chain:
  "TrimSpace (takeWhile (\<lambda>x. x \<noteq> CHR '','') ''1.2.3.4, 5.6.6.6'') = ''1.2.3.4''"
  by code_simp

text \<open>
  Claim C2. When the \<open>X-Real-IP\<close> header is empty or absent and the part of the
  \<open>X-Forwarded-For\<close> header before its first comma is non-empty once trimmed, \<open>IP\<close>
  returns that trimmed part; for \<open>X-Forwarded-For: 1.2.3.4, 5.6.6.6\<close> it returns
  \<open>1.2.3.4\<close>.
\<close>

theorem IP_X_Forwarded_For:
  assumes "TrimSpace (Header_Get (net_Header (request r)) ''X-Real-IP'') = []"
    and "TrimSpace (takeWhile (\<lambda>x. x \<noteq> CHR '','')
            (Header_Get (net_Header (request r)) ''X-Forwarded-For'')) \<noteq> []"
  shows "IP r = TrimSpace (takeWhile (\<lambda>x. x \<noteq> CHR '','')
            (Header_Get (net_Header (request r)) ''X-Forwarded-For''))
       \<and> (Header_Get (net_Header (request r)) ''X-Forwarded-For'' = ''1.2.3.4, 5.6.6.6''
            \<longrightarrow> IP r = ''1.2.3.4'')"
proof -
  have "IP r = TrimSpace (takeWhile (\<lambda>x. x \<noteq> CHR '','')
            (Header_Get (net_Header (request r)) ''X-Forwarded-For''))"
    using assms by (simp add: IP_raw Let_def)
  then show ?thesis using first_of_forwarded_chain by auto
qed

theorem IP_X_Forwarded_For_witness:
  "TrimSpace (Header_Get (net_Header (request (NewRequest
       \<lparr>net_Method = ''GET'', net_RequestURI = ''/'',
        net_Header = [''X-Forwarded-For'' \<mapsto> [''1.2.3.4, 5.6.6.6'']],
        net_RemoteAddr = ''9.9.9.9:4321'', net_Body = None, net_Form = None\<rparr>)))
     ''X-Real-IP'') = []
   \<and> Header_Get (net_Header (request (NewRequest
       \<lparr>net_Method = ''GET'', net_RequestURI = ''/'',
        net_Header = [''X-Forwarded-For'' \<mapsto> [''1.2.3.4, 5.6.6.6'']],
        net_RemoteAddr = ''9.9.9.9:4321'', net_Body = None, net_Form = None\<rparr>)))
     ''X-Forwarded-For'' = ''1.2.3.4, 5.6.6.6''
   \<and> IP (NewRequest
       \<lparr>net_Method = ''GET'', net_RequestURI = ''/'',
        net_Header = [''X-Forwarded-For'' \<mapsto> [''1.2.3.4, 5.6.6.6'']],
        net_RemoteAddr = ''9.9.9.9:4321'', net_Body = None, net_Form = None\<rparr>)
     = ''1.2.3.4''"
proof -
  let ?r = "NewRequest
       \<lparr>net_Method = ''GET'', net_RequestURI = ''/'',
        net_Header = [''X-Forwarded-For'' \<mapsto> [''1.2.3.4, 5.6.6.6'']],
        net_RemoteAddr = ''9.9.9.9:4321'', net_Body = None, net_Form = None\<rparr>"
  have a: "TrimSpace (Header_Get (net_Header (request ?r)) ''X-Real-IP'') = []"
    by code_simp
  have b: "Header_Get (net_Header (request ?r)) ''X-Forwarded-For'' = ''1.2.3.4, 5.6.6.6''"
    by code_simp
  have c: "TrimSpace (takeWhile (\<lambda>x. x \<noteq> CHR '','')
            (Header_Get (net_Header (request ?r)) ''X-Forwarded-For'')) \<noteq> []"
    by code_simp
  from IP_X_Forwarded_For [OF a c] b have "IP ?r = ''1.2.3.4''" by blast
  with a b show ?thesis by blast
qed


text \<open>
  Claim C3 says that, when both header checks come out empty, a remote address that is
  neither empty nor of the form host:port is returned unchanged. \<open>IP\<close> trims the
  remote address first, so an address with surrounding white space is not returned as
  it is: with no headers and the remote address \<open>" 9.9.9.9"\<close>, which has no port,
  \<open>IP\<close> returns \<open>"9.9.9.9"\<close>.
\<close>

theorem IP_RemoteAddr_unchanged_counterexample:
  "Header_Get (net_Header (request (NewRequest
       \<lparr>net_Method = ''GET'', net_RequestURI = ''/'', net_Header = Map.empty,
        net_RemoteAddr = '' 9.9.9.9'', net_Body = None, net_Form = None\<rparr>))) ''X-Real-IP'' = []
   \<and> Header_Get (net_Header (request (NewRequest
       \<lparr>net_Method = ''GET'', net_RequestURI = ''/'', net_Header = Map.empty,
        net_RemoteAddr = '' 9.9.9.9'', net_Body = None, net_Form = None\<rparr>))) ''X-Forwarded-For'' = []
   \<and> SplitHostPort '' 9.9.9.9'' = Inl (AddrError ''missing port in address'' '' 9.9.9.9'')
   \<and> IP (NewRequest
       \<lparr>net_Method = ''GET'', net_RequestURI = ''/'', net_Header = Map.empty,
        net_RemoteAddr = '' 9.9.9.9'', net_Body = None, net_Form = None\<rparr>) = ''9.9.9.9''
   \<and> IP (NewRequest
       \<lparr>net_Method = ''GET'', net_RequestURI = ''/'', net_Header = Map.empty,
        net_RemoteAddr = '' 9.9.9.9'', net_Body = None, net_Form = None\<rparr>) \<noteq> '' 9.9.9.9''"
  by code_simp

lemma remote_host_of_example:
  "TrimSpace ''9.9.9.9:4321'' = ''9.9.9.9:4321''
   \<and> SplitHostPort ''9.9.9.9:4321'' = Inr (''9.9.9.9'', ''4321'')"
  by code_simp

text \<open>
  Claim C3, amended. When the \<open>X-Real-IP\<close> and \<open>X-Forwarded-For\<close> checks both come
  out empty, \<open>IP\<close> falls back to the remote address with surrounding white space
  trimmed: if the trimmed address is empty the result is empty; if \<open>SplitHostPort\<close>
  accepts it the result is the host (in particular for \<open>host:port\<close> with no colon or
  bracket in either part, and \<open>"9.9.9.9:4321"\<close> gives \<open>"9.9.9.9"\<close>); otherwise the
  result is the trimmed address.
\<close>

theorem IP_RemoteAddr_fallback:
  assumes "TrimSpace (Header_Get (net_Header (request r)) ''X-Real-IP'') = []"
    and "TrimSpace (takeWhile (\<lambda>x. x \<noteq> CHR '','')
            (Header_Get (net_Header (request r)) ''X-Forwarded-For'')) = []"
  shows "(TrimSpace (net_RemoteAddr (request r)) = [] \<longrightarrow> IP r = [])
       \<and> (SplitHostPort (TrimSpace (net_RemoteAddr (request r))) = Inr (host, port)
            \<longrightarrow> IP r = host)
       \<and> (TrimSpace (net_RemoteAddr (request r)) = h @ CHR '':'' # p
            \<and> set h \<inter> {CHR '':'', CHR ''['', CHR '']''} = {}
            \<and> set p \<inter> {CHR '':'', CHR ''['', CHR '']''} = {}
            \<longrightarrow> IP r = h)
       \<and> (TrimSpace (net_RemoteAddr (request r)) \<noteq> []
            \<and> SplitHostPort (TrimSpace (net_RemoteAddr (request r))) = Inl err
            \<longrightarrow> IP r = TrimSpace (net_RemoteAddr (request r)))
       \<and> (net_RemoteAddr (request r) = ''9.9.9.9:4321'' \<longrightarrow> IP r = ''9.9.9.9'')"
proof -
  let ?addr = "TrimSpace (net_RemoteAddr (request r))"
  have ip: "IP r = (if ?addr = [] then []
                    else (case SplitHostPort ?addr of Inr (ip, port) \<Rightarrow> ip | Inl err \<Rightarrow> ?addr))"
    using assms by (simp add: IP_raw Let_def)
  have 1: "?addr = [] \<longrightarrow> IP r = []" using ip by simp
  have 2: "SplitHostPort ?addr = Inr (host, port) \<longrightarrow> IP r = host"
  proof
    assume s: "SplitHostPort ?addr = Inr (host, port)"
    then have "?addr \<noteq> []" using SplitHostPort_Nil by auto
    then show "IP r = host" using ip s by simp
  qed
  have 3: "?addr = h @ CHR '':'' # p
            \<and> set h \<inter> {CHR '':'', CHR ''['', CHR '']''} = {}
            \<and> set p \<inter> {CHR '':'', CHR ''['', CHR '']''} = {}
            \<longrightarrow> IP r = h"
  proof
    assume a: "?addr = h @ CHR '':'' # p
            \<and> set h \<inter> {CHR '':'', CHR ''['', CHR '']''} = {}
            \<and> set p \<inter> {CHR '':'', CHR ''['', CHR '']''} = {}"
    then have "SplitHostPort (h @ CHR '':'' # p) = Inr (h, p)"
      by (intro SplitHostPort_host_port) auto
    then show "IP r = h" using ip a by simp
  qed
  have 4: "?addr \<noteq> [] \<and> SplitHostPort ?addr = Inl err \<longrightarrow> IP r = ?addr"
    using ip by simp
  have 5: "net_RemoteAddr (request r) = ''9.9.9.9:4321'' \<longrightarrow> IP r = ''9.9.9.9''"
    using ip remote_host_of_example by auto
  show ?thesis using 1 2 3 4 5 by blast
qed

theorem IP_RemoteAddr_fallback_witness:
  "TrimSpace (Header_Get (net_Header (request (NewRequest
       \<lparr>net_Method = ''GET'', net_RequestURI = ''/'', net_Header = Map.empty,
        net_RemoteAddr = ''9.9.9.9:4321'', net_Body = None, net_Form = None\<rparr>))) ''X-Real-IP'') = []
   \<and> TrimSpace (takeWhile (\<lambda>x. x \<noteq> CHR '','')
        (Header_Get (net_Header (request (NewRequest
       \<lparr>net_Method = ''GET'', net_RequestURI = ''/'', net_Header = Map.empty,
        net_RemoteAddr = ''9.9.9.9:4321'', net_Body = None, net_Form = None\<rparr>))) ''X-Forwarded-For'')) = []
   \<and> SplitHostPort (TrimSpace (net_RemoteAddr (request (NewRequest
       \<lparr>net_Method = ''GET'', net_RequestURI = ''/'', net_Header = Map.empty,
        net_RemoteAddr = ''9.9.9.9:4321'', net_Body = None, net_Form = None\<rparr>)))) = Inr (''9.9.9.9'', ''4321'')
   \<and> IP (NewRequest
       \<lparr>net_Method = ''GET'', net_RequestURI = ''/'', net_Header = Map.empty,
        net_RemoteAddr = ''9.9.9.9:4321'', net_Body = None, net_Form = None\<rparr>) = ''9.9.9.9''
   \<and> TrimSpace (Header_Get (net_Header (request (NewRequest
       \<lparr>net_Method = ''GET'', net_RequestURI = ''/'', net_Header = Map.empty,
        net_RemoteAddr = ''  '', net_Body = None, net_Form = None\<rparr>))) ''X-Real-IP'') = []
   \<and> TrimSpace (takeWhile (\<lambda>x. x \<noteq> CHR '','')
        (Header_Get (net_Header (request (NewRequest
       \<lparr>net_Method = ''GET'', net_RequestURI = ''/'', net_Header = Map.empty,
        net_RemoteAddr = ''  '', net_Body = None, net_Form = None\<rparr>))) ''X-Forwarded-For'')) = []
   \<and> TrimSpace (net_RemoteAddr (request (NewRequest
       \<lparr>net_Method = ''GET'', net_RequestURI = ''/'', net_Header = Map.empty,
        net_RemoteAddr = ''  '', net_Body = None, net_Form = None\<rparr>))) = []
   \<and> IP (NewRequest
       \<lparr>net_Method = ''GET'', net_RequestURI = ''/'', net_Header = Map.empty,
        net_RemoteAddr = ''  '', net_Body = None, net_Form = None\<rparr>) = []
   \<and> TrimSpace (Header_Get (net_Header (request (NewRequest
       \<lparr>net_Method = ''GET'', net_RequestURI = ''/'', net_Header = Map.empty,
        net_RemoteAddr = '' localhost '', net_Body = None, net_Form = None\<rparr>))) ''X-Real-IP'') = []
   \<and> TrimSpace (takeWhile (\<lambda>x. x \<noteq> CHR '','')
        (Header_Get (net_Header (request (NewRequest
       \<lparr>net_Method = ''GET'', net_RequestURI = ''/'', net_Header = Map.empty,
        net_RemoteAddr = '' localhost '', net_Body = None, net_Form = None\<rparr>))) ''X-Forwarded-For'')) = []
   \<and> TrimSpace (net_RemoteAddr (request (NewRequest
       \<lparr>net_Method = ''GET'', net_RequestURI = ''/'', net_Header = Map.empty,
        net_RemoteAddr = '' localhost '', net_Body = None, net_Form = None\<rparr>))) \<noteq> []
   \<and> SplitHostPort (TrimSpace (net_RemoteAddr (request (NewRequest
       \<lparr>net_Method = ''GET'', net_RequestURI = ''/'', net_Header = Map.empty,
        net_RemoteAddr = '' localhost '', net_Body = None, net_Form = None\<rparr>))))
          = Inl (AddrError ''missing port in address'' ''localhost'')
   \<and> IP (NewRequest
       \<lparr>net_Method = ''GET'', net_RequestURI = ''/'', net_Header = Map.empty,
        net_RemoteAddr = '' localhost '', net_Body = None, net_Form = None\<rparr>) = ''localhost''"
proof -
  let ?a = "(NewRequest
       \<lparr>net_Method = ''GET'', net_RequestURI = ''/'', net_Header = Map.empty,
        net_RemoteAddr = ''9.9.9.9:4321'', net_Body = None, net_Form = None\<rparr>)"
  let ?b = "(NewRequest
       \<lparr>net_Method = ''GET'', net_RequestURI = ''/'', net_Header = Map.empty,
        net_RemoteAddr = ''  '', net_Body = None, net_Form = None\<rparr>)"
  let ?c = "(NewRequest
       \<lparr>net_Method = ''GET'', net_RequestURI = ''/'', net_Header = Map.empty,
        net_RemoteAddr = '' localhost '', net_Body = None, net_Form = None\<rparr>)"
  have a1: "TrimSpace (Header_Get (net_Header (request ?a)) ''X-Real-IP'') = []"
    by code_simp
  have a2: "TrimSpace (takeWhile (\<lambda>x. x \<noteq> CHR '','')
        (Header_Get (net_Header (request ?a)) ''X-Forwarded-For'')) = []"
    by code_simp
  have a3: "SplitHostPort (TrimSpace (net_RemoteAddr (request ?a))) = Inr (''9.9.9.9'', ''4321'')"
    by code_simp
  have a: "IP ?a = ''9.9.9.9''"
    using IP_RemoteAddr_fallback [OF a1 a2, of "''9.9.9.9''" "''4321''"] a3 by blast
  have b1: "TrimSpace (Header_Get (net_Header (request ?b)) ''X-Real-IP'') = []"
    by code_simp
  have b2: "TrimSpace (takeWhile (\<lambda>x. x \<noteq> CHR '','')
        (Header_Get (net_Header (request ?b)) ''X-Forwarded-For'')) = []"
    by code_simp
  have b3: "TrimSpace (net_RemoteAddr (request ?b)) = []"
    by code_simp
  have b: "IP ?b = []"
    using IP_RemoteAddr_fallback [OF b1 b2] b3 by blast
  have c1: "TrimSpace (Header_Get (net_Header (request ?c)) ''X-Real-IP'') = []"
    by code_simp
  have c2: "TrimSpace (takeWhile (\<lambda>x. x \<noteq> CHR '','')
        (Header_Get (net_Header (request ?c)) ''X-Forwarded-For'')) = []"
    by code_simp
  have c3: "TrimSpace (net_RemoteAddr (request ?c)) = ''localhost''"
    by code_simp
  have c4: "SplitHostPort (TrimSpace (net_RemoteAddr (request ?c)))
          = Inl (AddrError ''missing port in address'' ''localhost'')"
    by code_simp
  have c5: "TrimSpace (net_RemoteAddr (request ?c)) \<noteq> []" using c3 by simp
  have c: "IP ?c = ''localhost''"
    using IP_RemoteAddr_fallback [OF c1 c2, where err = "AddrError ''missing port in address'' ''localhost''"]
      c3 c4 c5 by metis
  show ?thesis using a1 a2 a3 a b1 b2 b3 b c1 c2 c4 c5 c by blast
qed


section \<open>Reading the body\<close>

lemma readBody_ok:
  assumes "net_Body (request r) = Some body" and "fault body = None"
  shows "readBody r = (Inr (pending body),
            r\<lparr>request := (request r)\<lparr>net_Body := Some (NewBuffer (pending body))\<rparr>\<rparr>)"
  using assms by (simp add: readBody_def ReadAll_def NopCloser_def)

lemma readBody_absent:
  "net_Body (request r) = None \<Longrightarrow> readBody r = (Inl (errors_New ''Body was empty''), r)"
  by (simp add: readBody_def)

lemma readBody_fault:
  assumes "net_Body (request r) = Some body" and "fault body = Some err"
  shows "fst (readBody r) = Inl err"
  using assms by (simp add: readBody_def ReadAll_def)

lemma readBody_ok_body:
  assumes "net_Body (request r) = Some body" and "fault body = None"
  shows "net_Body (request (snd (readBody r))) = Some (NewBuffer (pending body))"
  using readBody_ok [OF assms] by simp

lemma readBody_iterate:
  assumes "net_Body (request r) = Some body" and "fault body = None"
  shows "net_Body (request (((snd \<circ> readBody) ^^ Suc n) r)) = Some (NewBuffer (pending body))"
proof (induction n)
  case 0
  then show ?case using readBody_ok_body [OF assms] by simp
next
  case (Suc n)
  let ?r = "((snd \<circ> readBody) ^^ Suc n) r"
  have f: "fault (NewBuffer (pending body)) = None" by (simp add: NewBuffer_def)
  have p: "pending (NewBuffer (pending body)) = pending body" by (simp add: NewBuffer_def)
  have "((snd \<circ> readBody) ^^ Suc (Suc n)) r = snd (readBody ?r)" by simp
  then show ?case using readBody_ok_body [OF Suc.IH f] p by simp
qed

text \<open>
  Claim C4 speaks of every request with an attached body. When reading the stream
  fails, \<open>readBody\<close> returns the error before it installs anything on the request: the
  body left behind is the drained stream, which does not deliver the payload again.
\<close>

theorem readBody_failed_read_counterexample:
  "fst (readBody (NewRequest
       \<lparr>net_Method = ''POST'', net_RequestURI = ''/'', net_Header = Map.empty,
        net_RemoteAddr = ''9.9.9.9:4321'',
        net_Body = Some (Stream [0x7B] (Some (ExternalError ''unexpected EOF''))),
        net_Form = None\<rparr>)) = Inl (ExternalError ''unexpected EOF'')
   \<and> map_option (fst \<circ> ReadAll) (net_Body (request (snd (readBody (NewRequest
       \<lparr>net_Method = ''POST'', net_RequestURI = ''/'', net_Header = Map.empty,
        net_RemoteAddr = ''9.9.9.9:4321'',
        net_Body = Some (Stream [0x7B] (Some (ExternalError ''unexpected EOF''))),
        net_Form = None\<rparr>)))))
       = Some ([], Some (ExternalError ''unexpected EOF''))
   \<and> map_option (fst \<circ> ReadAll) (net_Body (request (snd (readBody (NewRequest
       \<lparr>net_Method = ''POST'', net_RequestURI = ''/'', net_Header = Map.empty,
        net_RemoteAddr = ''9.9.9.9:4321'',
        net_Body = Some (Stream [0x7B] (Some (ExternalError ''unexpected EOF''))),
        net_Form = None\<rparr>)))))
       \<noteq> Some ([0x7B], None)"
  by (simp add: readBody_def ReadAll_def NewRequest_def)

text \<open>
  Claim C4, amended. For a request with an attached body whose stream reads to its end
  without error, the first and the second call of \<open>readBody\<close>, and every later one,
  return the same bytes, the payload of the stream; and after each call the body
  installed on the base request is a stream that \<open>ReadAll\<close> reads to the full payload
  again.
\<close>

theorem readBody_replay:
  assumes "net_Body (request r) = Some body" and "fault body = None"
  shows "fst (readBody r) = Inr (pending body)
       \<and> fst (readBody (snd (readBody r))) = Inr (pending body)
       \<and> fst (readBody (((snd \<circ> readBody) ^^ n) r)) = Inr (pending body)
       \<and> (0 < n \<longrightarrow>
            map_option (fst \<circ> ReadAll) (net_Body (request (((snd \<circ> readBody) ^^ n) r)))
              = Some (pending body, None))"
proof -
  have step: "\<And>q b. net_Body (request q) = Some b \<Longrightarrow> fault b = None
                \<Longrightarrow> fst (readBody q) = Inr (pending b)"
    by (simp add: readBody_ok)
  have buf: "fault (NewBuffer (pending body)) = None"
            "pending (NewBuffer (pending body)) = pending body"
    by (simp_all add: NewBuffer_def)
  have any: "fst (readBody (((snd \<circ> readBody) ^^ k) r)) = Inr (pending body)" for k
  proof (cases k)
    case 0
    then show ?thesis using step [OF assms] by simp
  next
    case (Suc m)
    then show ?thesis
      using step [OF readBody_iterate [OF assms, of m] buf(1)] buf(2) by simp
  qed
  have 1: "fst (readBody r) = Inr (pending body)" using any [of 0] by simp
  have 2: "fst (readBody (snd (readBody r))) = Inr (pending body)" using any [of 1] by simp
  have 4: "0 < n \<longrightarrow>
            map_option (fst \<circ> ReadAll) (net_Body (request (((snd \<circ> readBody) ^^ n) r)))
              = Some (pending body, None)"
  proof
    assume "0 < n"
    then obtain m where "n = Suc m" by (cases n) auto
    then show "map_option (fst \<circ> ReadAll) (net_Body (request (((snd \<circ> readBody) ^^ n) r)))
              = Some (pending body, None)"
      using readBody_iterate [OF assms, of m] by (simp add: ReadAll_def NewBuffer_def)
  qed
  show ?thesis using 1 2 any [of n] 4 by blast
qed


theorem readBody_replay_witness:
  "net_Body (request (NewRequest
       \<lparr>net_Method = ''POST'', net_RequestURI = ''/'', net_Header = Map.empty,
        net_RemoteAddr = ''9.9.9.9:4321'', net_Body = Some (Stream [0x7B, 0x7D] None),
        net_Form = None\<rparr>)) = Some (Stream [0x7B, 0x7D] None)
   \<and> fault (Stream [0x7B, 0x7D] None) = None
   \<and> fst (readBody (NewRequest
       \<lparr>net_Method = ''POST'', net_RequestURI = ''/'', net_Header = Map.empty,
        net_RemoteAddr = ''9.9.9.9:4321'', net_Body = Some (Stream [0x7B, 0x7D] None),
        net_Form = None\<rparr>)) = Inr [0x7B, 0x7D]
   \<and> fst (readBody (snd (readBody (NewRequest
       \<lparr>net_Method = ''POST'', net_RequestURI = ''/'', net_Header = Map.empty,
        net_RemoteAddr = ''9.9.9.9:4321'', net_Body = Some (Stream [0x7B, 0x7D] None),
        net_Form = None\<rparr>)))) = Inr [0x7B, 0x7D]
   \<and> map_option (fst \<circ> ReadAll) (net_Body (request (snd (readBody (snd (readBody (NewRequest
       \<lparr>net_Method = ''POST'', net_RequestURI = ''/'', net_Header = Map.empty,
        net_RemoteAddr = ''9.9.9.9:4321'', net_Body = Some (Stream [0x7B, 0x7D] None),
        net_Form = None\<rparr>))))))) = Some ([0x7B, 0x7D], None)"
proof -
  let ?r = "NewRequest
       \<lparr>net_Method = ''POST'', net_RequestURI = ''/'', net_Header = Map.empty,
        net_RemoteAddr = ''9.9.9.9:4321'', net_Body = Some (Stream [0x7B, 0x7D] None),
        net_Form = None\<rparr>"
  have a: "net_Body (request ?r) = Some (Stream [0x7B, 0x7D] None)"
    by (simp add: NewRequest_def)
  have b: "fault (Stream [0x7B, 0x7D] None) = None" by simp
  show ?thesis
    using readBody_replay [OF a b, of "Suc (Suc 0)"] a by simp
qed

text \<open>
  Claim C5. \<open>ReadJSON\<close> returns the error \<open>Body was empty\<close> when the request has no
  body, and the error of the stream when reading the body fails; in both cases the
  decoder is not run and the target is left as it was.
\<close>

theorem ReadJSON_body_errors:
  "(net_Body (request r) = None
      \<longrightarrow> ReadJSON Unmarshal r target = (Some (errors_New ''Body was empty''), target, r))
   \<and> (net_Body (request r) = Some body \<and> fault body = Some err
      \<longrightarrow> fst (ReadJSON Unmarshal r target) = Some err
          \<and> fst (snd (ReadJSON Unmarshal r target)) = target)"
  by (simp add: ReadJSON_def readBody_def ReadAll_def)

theorem ReadJSON_body_errors_witness:
  "net_Body (request (NewRequest
       \<lparr>net_Method = ''POST'', net_RequestURI = ''/'', net_Header = Map.empty,
        net_RemoteAddr = ''9.9.9.9:4321'', net_Body = None, net_Form = None\<rparr>)) = None
   \<and> fst (ReadJSON (\<lambda>data target. (None, data)) (NewRequest
       \<lparr>net_Method = ''POST'', net_RequestURI = ''/'', net_Header = Map.empty,
        net_RemoteAddr = ''9.9.9.9:4321'', net_Body = None, net_Form = None\<rparr>) [0x30])
       = Some (errors_New ''Body was empty'')
   \<and> fst (snd (ReadJSON (\<lambda>data target. (None, data)) (NewRequest
       \<lparr>net_Method = ''POST'', net_RequestURI = ''/'', net_Header = Map.empty,
        net_RemoteAddr = ''9.9.9.9:4321'', net_Body = None, net_Form = None\<rparr>) [0x30]))
       = [0x30]
   \<and> net_Body (request (NewRequest
       \<lparr>net_Method = ''POST'', net_RequestURI = ''/'', net_Header = Map.empty,
        net_RemoteAddr = ''9.9.9.9:4321'',
        net_Body = Some (Stream [0x7B] (Some (ExternalError ''unexpected EOF''))),
        net_Form = None\<rparr>))
       = Some (Stream [0x7B] (Some (ExternalError ''unexpected EOF'')))
   \<and> fault (Stream [0x7B] (Some (ExternalError ''unexpected EOF'')))
       = Some (ExternalError ''unexpected EOF'')
   \<and> fst (ReadJSON (\<lambda>data target. (None, data)) (NewRequest
       \<lparr>net_Method = ''POST'', net_RequestURI = ''/'', net_Header = Map.empty,
        net_RemoteAddr = ''9.9.9.9:4321'',
        net_Body = Some (Stream [0x7B] (Some (ExternalError ''unexpected EOF''))),
        net_Form = None\<rparr>) [0x30])
       = Some (ExternalError ''unexpected EOF'')
   \<and> fst (snd (ReadJSON (\<lambda>data target. (None, data)) (NewRequest
       \<lparr>net_Method = ''POST'', net_RequestURI = ''/'', net_Header = Map.empty,
        net_RemoteAddr = ''9.9.9.9:4321'',
        net_Body = Some (Stream [0x7B] (Some (ExternalError ''unexpected EOF''))),
        net_Form = None\<rparr>) [0x30]))
       = [0x30]"
proof -
  let ?a = "NewRequest
       \<lparr>net_Method = ''POST'', net_RequestURI = ''/'', net_Header = Map.empty,
        net_RemoteAddr = ''9.9.9.9:4321'', net_Body = None, net_Form = None\<rparr>"
  let ?s = "Stream [0x7B] (Some (ExternalError ''unexpected EOF''))"
  let ?b = "NewRequest
       \<lparr>net_Method = ''POST'', net_RequestURI = ''/'', net_Header = Map.empty,
        net_RemoteAddr = ''9.9.9.9:4321'', net_Body = Some ?s, net_Form = None\<rparr>"
  let ?U = "\<lambda>(data :: byte list) (target :: byte list). (None :: error option, data)"
  have a: "net_Body (request ?a) = None" by (simp add: NewRequest_def)
  have b: "net_Body (request ?b) = Some ?s" by (simp add: NewRequest_def)
  have f: "fault ?s = Some (ExternalError ''unexpected EOF'')" by simp
  have ra: "ReadJSON ?U ?a [0x30] = (Some (errors_New ''Body was empty''), [0x30], ?a)"
    using ReadJSON_body_errors [of ?a ?U "[0x30]"] a by blast
  have rb: "fst (ReadJSON ?U ?b [0x30]) = Some (ExternalError ''unexpected EOF'')
          \<and> fst (snd (ReadJSON ?U ?b [0x30])) = [0x30]"
    using ReadJSON_body_errors [of ?b ?U "[0x30]" ?s "ExternalError ''unexpected EOF''"] b f
    by blast
  show ?thesis using a b f ra rb by simp
qed


section \<open>Form values\<close>

text \<open>
  Claim C8. When parsing the form fails, \<open>FormValues\<close> returns the \<open>nil\<close> mapping, and
  its result has no place for the error; when parsing succeeds it returns the form that
  parsing left on the base request. Both are stated for \<open>parseForm\<close> and for a call of
  the library's \<open>ParseForm\<close> on a request whose form is not parsed yet.
\<close>

theorem FormValues_parse:
  "(fst (parseForm ParseForm r) = Some err \<longrightarrow> fst (FormValues ParseForm r) = None)
   \<and> (fst (parseForm ParseForm r) = None
      \<longrightarrow> fst (FormValues ParseForm r) = net_Form (request (snd (parseForm ParseForm r))))
   \<and> (net_Form (request r) = None \<and> ParseForm (request r) = (Some err, req')
      \<longrightarrow> fst (FormValues ParseForm r) = None)
   \<and> (net_Form (request r) = None \<and> ParseForm (request r) = (None, req')
      \<longrightarrow> fst (FormValues ParseForm r) = net_Form req')"
  by (auto simp: FormValues_def parseForm_def split: prod.splits option.splits)

theorem FormValues_parse_witness:
  "net_Form (request (NewRequest
       \<lparr>net_Method = ''POST'', net_RequestURI = ''/?a=%zz'', net_Header = Map.empty,
        net_RemoteAddr = ''9.9.9.9:4321'', net_Body = None, net_Form = None\<rparr>)) = None
   \<and> fst (parseForm
       (\<lambda>req. (Some (ExternalError ''invalid URL escape''), req\<lparr>net_Form := Some Map.empty\<rparr>))
       (NewRequest
       \<lparr>net_Method = ''POST'', net_RequestURI = ''/?a=%zz'', net_Header = Map.empty,
        net_RemoteAddr = ''9.9.9.9:4321'', net_Body = None, net_Form = None\<rparr>))
       = Some (ExternalError ''invalid URL escape'')
   \<and> fst (FormValues
       (\<lambda>req. (Some (ExternalError ''invalid URL escape''), req\<lparr>net_Form := Some Map.empty\<rparr>))
       (NewRequest
       \<lparr>net_Method = ''POST'', net_RequestURI = ''/?a=%zz'', net_Header = Map.empty,
        net_RemoteAddr = ''9.9.9.9:4321'', net_Body = None, net_Form = None\<rparr>)) = None
   \<and> fst (parseForm
       (\<lambda>req. (None, req\<lparr>net_Form := Some [''a'' \<mapsto> [''1'']]\<rparr>))
       (NewRequest
       \<lparr>net_Method = ''POST'', net_RequestURI = ''/?a=%zz'', net_Header = Map.empty,
        net_RemoteAddr = ''9.9.9.9:4321'', net_Body = None, net_Form = None\<rparr>)) = None
   \<and> fst (FormValues
       (\<lambda>req. (None, req\<lparr>net_Form := Some [''a'' \<mapsto> [''1'']]\<rparr>))
       (NewRequest
       \<lparr>net_Method = ''POST'', net_RequestURI = ''/?a=%zz'', net_Header = Map.empty,
        net_RemoteAddr = ''9.9.9.9:4321'', net_Body = None, net_Form = None\<rparr>))
       = Some [''a'' \<mapsto> [''1'']]"
proof -
  let ?q = "\<lparr>net_Method = ''POST'', net_RequestURI = ''/?a=%zz'', net_Header = Map.empty,
        net_RemoteAddr = ''9.9.9.9:4321'', net_Body = None, net_Form = None\<rparr>"
  let ?r = "NewRequest ?q"
  let ?fail = "\<lambda>req. (Some (ExternalError ''invalid URL escape''),
                       req\<lparr>net_Form := Some Map.empty\<rparr>)"
  let ?ok = "\<lambda>req. (None :: error option, req\<lparr>net_Form := Some [''a'' \<mapsto> [''1'']]\<rparr>)"
  have n: "net_Form (request ?r) = None" by (simp add: NewRequest_def)
  have pf: "?fail (request ?r)
              = (Some (ExternalError ''invalid URL escape''), ?q\<lparr>net_Form := Some Map.empty\<rparr>)"
    by (simp add: NewRequest_def)
  have po: "?ok (request ?r) = (None, ?q\<lparr>net_Form := Some [''a'' \<mapsto> [''1'']]\<rparr>)"
    by (simp add: NewRequest_def)
  have sf: "fst (parseForm ?fail ?r) = Some (ExternalError ''invalid URL escape'')"
    by (simp add: parseForm_def NewRequest_def)
  have so: "fst (parseForm ?ok ?r) = None"
    by (simp add: parseForm_def NewRequest_def)
  have a: "fst (FormValues ?fail ?r) = None"
    using FormValues_parse [of ?fail ?r "ExternalError ''invalid URL escape''"
        "?q\<lparr>net_Form := Some Map.empty\<rparr>"] n pf sf by blast
  have b: "fst (FormValues ?ok ?r) = net_Form (?q\<lparr>net_Form := Some [''a'' \<mapsto> [''1'']]\<rparr>)"
    using FormValues_parse [of ?ok ?r _ "?q\<lparr>net_Form := Some [''a'' \<mapsto> [''1'']]\<rparr>"] n po so
    by blast
  show ?thesis using n sf so a b by simp
qed

section \<open>Cookies\<close>

text \<open>
  Claim C7. When the presence check finds the named cookie, \<open>Cookie\<close> returns the empty
  string; when the check fails, \<open>Cookie\<close> returns the string representation of the
  cookie that the failed lookup handed back.
\<close>

theorem Cookie_inverted:
  "(HasCookie readCookies r name \<longrightarrow> Cookie readCookies serialize r name = [])
   \<and> (\<not> HasCookie readCookies r name
      \<longrightarrow> Cookie readCookies serialize r name
          = Cookie_String serialize (fst (http_Request_Cookie readCookies (request r) name)))"
  by (auto simp: HasCookie_def Cookie_def split: prod.splits option.splits)

theorem Cookie_inverted_witness:
  "HasCookie (\<lambda>h n. if n = ''sid'' then [\<lparr>Name = ''sid'', Value = ''abc''\<rparr>] else [])
     (NewRequest
       \<lparr>net_Method = ''GET'', net_RequestURI = ''/'', net_Header = [''Cookie'' \<mapsto> [''sid=abc'']],
        net_RemoteAddr = ''9.9.9.9:4321'', net_Body = None, net_Form = None\<rparr>) ''sid''
   \<and> Cookie (\<lambda>h n. if n = ''sid'' then [\<lparr>Name = ''sid'', Value = ''abc''\<rparr>] else [])
       (\<lambda>c. Name c @ ''='' @ Value c)
     (NewRequest
       \<lparr>net_Method = ''GET'', net_RequestURI = ''/'', net_Header = [''Cookie'' \<mapsto> [''sid=abc'']],
        net_RemoteAddr = ''9.9.9.9:4321'', net_Body = None, net_Form = None\<rparr>) ''sid'' = []
   \<and> \<not> HasCookie (\<lambda>h n. if n = ''sid'' then [\<lparr>Name = ''sid'', Value = ''abc''\<rparr>] else [])
     (NewRequest
       \<lparr>net_Method = ''GET'', net_RequestURI = ''/'', net_Header = [''Cookie'' \<mapsto> [''sid=abc'']],
        net_RemoteAddr = ''9.9.9.9:4321'', net_Body = None, net_Form = None\<rparr>) ''lang''
   \<and> Cookie (\<lambda>h n. if n = ''sid'' then [\<lparr>Name = ''sid'', Value = ''abc''\<rparr>] else [])
       (\<lambda>c. Name c @ ''='' @ Value c)
     (NewRequest
       \<lparr>net_Method = ''GET'', net_RequestURI = ''/'', net_Header = [''Cookie'' \<mapsto> [''sid=abc'']],
        net_RemoteAddr = ''9.9.9.9:4321'', net_Body = None, net_Form = None\<rparr>) ''lang''
     = Cookie_String (\<lambda>c. Name c @ ''='' @ Value c) None"
proof -
  let ?r = "NewRequest
       \<lparr>net_Method = ''GET'', net_RequestURI = ''/'', net_Header = [''Cookie'' \<mapsto> [''sid=abc'']],
        net_RemoteAddr = ''9.9.9.9:4321'', net_Body = None, net_Form = None\<rparr>"
  let ?rc = "\<lambda>(h :: http_Header) n. if n = ''sid'' then [\<lparr>Name = ''sid'', Value = ''abc''\<rparr>] else []"
  let ?ser = "\<lambda>c :: http_Cookie. Name c @ ''='' @ Value c"
  have a: "HasCookie ?rc ?r ''sid''"
    by (simp add: HasCookie_def http_Request_Cookie_def)
  have b: "\<not> HasCookie ?rc ?r ''lang''"
    by (simp add: HasCookie_def http_Request_Cookie_def)
  have c: "fst (http_Request_Cookie ?rc (request ?r) ''lang'') = None"
    by (simp add: http_Request_Cookie_def)
  have "Cookie ?rc ?ser ?r ''sid'' = []"
    using Cookie_inverted [of ?rc ?r "''sid''" ?ser] a by blast
  moreover have "Cookie ?rc ?ser ?r ''lang'' = Cookie_String ?ser None"
    using Cookie_inverted [of ?rc ?r "''lang''" ?ser] b c by simp
  ultimately show ?thesis using a b by blast
qed

text \<open>
  Claim C10. \<open>Cookie\<close> returns the empty string for every request and every name: directly
  when the cookie is found, and as the string representation of the \<open>nil\<close> cookie when
  it is not.
\<close>

theorem Cookie_always_empty: "Cookie readCookies serialize r name = []"
  by (simp add: Cookie_def http_Request_Cookie_def Cookie_String_def split: list.splits)


section \<open>Content negotiation and ajax detection\<close>

lemma occurrence_after_prefix:
  assumes "pre @ X = p @ sub @ q" and "sub \<noteq> []" and "hd sub \<notin> set pre"
  shows "\<exists>us. X = us @ sub @ q"
proof -
  from assms(1) consider us where "pre = p @ us" "us @ X = sub @ q"
    | us where "pre @ us = p" "X = us @ sub @ q"
    by (auto simp: append_eq_append_conv2)
  then show ?thesis
  proof cases
    case 1
    show ?thesis
    proof (cases us)
      case Nil
      then have "X = [] @ sub @ q" using 1(2) by simp
      then show ?thesis by blast
    next
      case (Cons u us')
      then have "u = hd sub" using 1(2) assms(2) by (cases sub) auto
      moreover have "u \<in> set pre" using 1(1) Cons by simp
      ultimately show ?thesis using assms(3) by simp
    qed
  next
    case 2
    then show ?thesis by blast
  qed
qed

lemma occurrence_before_suffix:
  assumes "X @ post = p @ sub @ q" and "sub \<noteq> []" and "last sub \<notin> set post"
  shows "\<exists>ws. X = p @ sub @ ws"
proof -
  have "rev post @ rev X = rev q @ rev sub @ rev p"
    using arg_cong [OF assms(1), of rev] by simp
  moreover have "rev sub \<noteq> []" using assms(2) by simp
  moreover have "hd (rev sub) \<notin> set (rev post)"
    using assms(2,3) by (simp add: hd_rev)
  ultimately obtain us where "rev X = us @ rev sub @ rev p"
    using occurrence_after_prefix by blast
  then have "rev (rev X) = rev (us @ rev sub @ rev p)" by simp
  then have "X = p @ sub @ rev us" by simp
  then show ?thesis by blast
qed

lemma Contains_TrimSpace:
  assumes ne: "sub \<noteq> []"
    and h: "hd sub \<notin> \<Union> (set ` set whiteSpaceUTF8)"
    and l: "last sub \<notin> \<Union> (set ` set whiteSpaceUTF8)"
  shows "Contains (TrimSpace s) sub \<longleftrightarrow> Contains s sub"
proof -
  obtain pre post where d: "s = pre @ TrimSpace s @ post"
    "set pre \<subseteq> \<Union> (set ` set whiteSpaceUTF8)"
    "set post \<subseteq> \<Union> (set ` set whiteSpaceUTF8)"
    using TrimSpace_decomp by blast
  show ?thesis
  proof
    assume "Contains (TrimSpace s) sub"
    then obtain p q where "TrimSpace s = p @ sub @ q" using Contains_iff by blast
    then have "pre @ TrimSpace s @ post = (pre @ p) @ sub @ (q @ post)" by simp
    then have "s = (pre @ p) @ sub @ (q @ post)" using d(1) by simp
    then show "Contains s sub" using Contains_iff by blast
  next
    assume "Contains s sub"
    then obtain p q where "s = p @ sub @ q" using Contains_iff by blast
    then have "pre @ (TrimSpace s @ post) = p @ sub @ q" using d(1) by simp
    moreover have "hd sub \<notin> set pre" using h d(2) by blast
    ultimately obtain us where "TrimSpace s @ post = us @ sub @ q"
      using occurrence_after_prefix ne by blast
    moreover have "last sub \<notin> set post" using l d(3) by blast
    ultimately obtain ws where "TrimSpace s = us @ sub @ ws"
      using occurrence_before_suffix ne by blast
    then show "Contains (TrimSpace s) sub" using Contains_iff by blast
  qed
qed

lemma canonical_accept: "CanonicalMIMEHeaderKey ''accept'' = ''Accept''"
  by code_simp

lemma canonical_Accept: "CanonicalMIMEHeaderKey ''Accept'' = ''Accept''"
  by code_simp

lemma Header_Get_accept: "Header_Get h ''accept'' = Header_Get h ''Accept''"
  by (simp add: Header_Get_def canonical_accept canonical_Accept)

text \<open>
  Claim C9. \<open>WantsJSON\<close> holds exactly when the value of the \<open>Accept\<close> header contains
  \<open>application/json\<close> somewhere, other media types before or after it or not; the
  trimming done at header retrieval does not change that.
\<close>

theorem WantsJSON_iff:
  "WantsJSON r \<longleftrightarrow>
     (\<exists>p q. Header_Get (net_Header (request r)) ''Accept'' = p @ ''application/json'' @ q)"
proof -
  have "Contains (TrimSpace (Header_Get (net_Header (request r)) ''Accept'')) ''application/json''
          \<longleftrightarrow> Contains (Header_Get (net_Header (request r)) ''Accept'') ''application/json''"
    by (rule Contains_TrimSpace) (simp_all add: whiteSpaceUTF8_def)
  then show ?thesis
    by (simp add: WantsJSON_def HeaderContains_def Header_eq Header_Get_accept Contains_iff)
qed

theorem WantsJSON_iff_witness:
  "Header_Get (net_Header (request (NewRequest
       \<lparr>net_Method = ''GET'', net_RequestURI = ''/'',
        net_Header = [''Accept'' \<mapsto> [''text/html, application/json;q=0.9'']],
        net_RemoteAddr = ''9.9.9.9:4321'', net_Body = None, net_Form = None\<rparr>))) ''Accept''
     = ''text/html, '' @ ''application/json'' @ '';q=0.9''
   \<and> WantsJSON (NewRequest
       \<lparr>net_Method = ''GET'', net_RequestURI = ''/'',
        net_Header = [''Accept'' \<mapsto> [''text/html, application/json;q=0.9'']],
        net_RemoteAddr = ''9.9.9.9:4321'', net_Body = None, net_Form = None\<rparr>)"
proof -
  let ?r = "NewRequest
       \<lparr>net_Method = ''GET'', net_RequestURI = ''/'',
        net_Header = [''Accept'' \<mapsto> [''text/html, application/json;q=0.9'']],
        net_RemoteAddr = ''9.9.9.9:4321'', net_Body = None, net_Form = None\<rparr>"
  have a: "Header_Get (net_Header (request ?r)) ''Accept''
             = ''text/html, '' @ ''application/json'' @ '';q=0.9''"
    by code_simp
  then have "WantsJSON ?r" using WantsJSON_iff [of ?r] by blast
  with a show ?thesis by blast
qed

lemma IsAjax_iff:
  "IsAjax r \<longleftrightarrow>
     TrimSpace (Header_Get (net_Header (request r)) ''HTTP_X_REQUESTED_WITH'') = ''XMLHttpRequest''"
  by (simp add: IsAjax_def Header_eq)

lemma canonical_HTTP_X_REQUESTED_WITH:
  "CanonicalMIMEHeaderKey ''HTTP_X_REQUESTED_WITH'' = ''Http_x_requested_with''"
  by code_simp

lemma IsAjax_without_cgi_header:
  assumes "net_Header (request r) ''Http_x_requested_with'' = None"
  shows "\<not> IsAjax r"
  using assms
  by (simp add: IsAjax_iff Header_Get_def canonical_HTTP_X_REQUESTED_WITH TrimSpace_Nil)

text \<open>
  Claim C6. \<open>IsAjax\<close> asks for the header \<open>HTTP_X_REQUESTED_WITH\<close>, whose canonical key
  is \<open>Http_x_requested_with\<close>, not for \<open>X-Requested-With\<close>: a request that carries
  \<open>X-Requested-With: XMLHttpRequest\<close> is not recognised, and only a header sent under
  the name \<open>HTTP_X_REQUESTED_WITH\<close> is.
\<close>

theorem IsAjax_X_Requested_With:
  "\<not> IsAjax (NewRequest
       \<lparr>net_Method = ''GET'', net_RequestURI = ''/'',
        net_Header = [''X-Requested-With'' \<mapsto> [''XMLHttpRequest'']],
        net_RemoteAddr = ''9.9.9.9:4321'', net_Body = None, net_Form = None\<rparr>)
   \<and> CanonicalMIMEHeaderKey ''HTTP_X_REQUESTED_WITH'' = ''Http_x_requested_with''
   \<and> CanonicalMIMEHeaderKey ''X-Requested-With'' = ''X-Requested-With''
   \<and> IsAjax (NewRequest
       \<lparr>net_Method = ''GET'', net_RequestURI = ''/'',
        net_Header = [''Http_x_requested_with'' \<mapsto> [''XMLHttpRequest'']],
        net_RemoteAddr = ''9.9.9.9:4321'', net_Body = None, net_Form = None\<rparr>)"
  by code_simp


end
